theory Spec2Isabelle
  imports Complex_Main "HOL-Library.Sublist"
begin

section \<open>Motion configuration (utils/motion/config)\<close>

text \<open>
  The result of reading a property of a JavaScript object literal: the object's own value,
  \<open>undefined\<close>, or a member reached through the prototype chain (\<open>Object.prototype\<close>).
  \<open>NaN\<close> is the result of arithmetic on anything that is not a number.
\<close>

datatype 'a js_value = Value 'a | Undefined | Inherited string | NaN

text \<open>The error the accessors are documented to raise; no path of the source constructs it.\<close>

datatype error = UnknownTierError

text \<open>The property names every object literal inherits from \<open>Object.prototype\<close>.\<close>

definition object_prototype :: "string list" where
  "object_prototype =
     [''constructor'', ''__defineGetter__'', ''__defineSetter__'', ''hasOwnProperty'',
      ''__lookupGetter__'', ''__lookupSetter__'', ''isPrototypeOf'', ''propertyIsEnumerable'',
      ''toString'', ''valueOf'', ''__proto__'', ''toLocaleString'']"

text \<open>\<open>obj[key]\<close>: own properties first, then the prototype, else \<open>undefined\<close>. It never throws.\<close>

definition js_get :: "(string \<times> 'a) list \<Rightarrow> string \<Rightarrow> 'a js_value" where
  "js_get obj key =
     (case map_of obj key of
        Some v \<Rightarrow> Value v
      | None \<Rightarrow> if key \<in> set object_prototype then Inherited key else Undefined)"

text \<open>\<open>motionConfig.durations\<close>, in seconds. Numbers are modelled as reals.\<close>

definition durations :: "(string \<times> real) list" where
  "durations =
     [(''instant'', 0), (''fast'', 0.2), (''normal'', 0.4), (''slow'', 0.6), (''verySlow'', 1)]"

text \<open>\<open>motionConfig.easings\<close>.\<close>

definition easings :: "(string \<times> string) list" where
  "easings =
     [(''linear'', ''none''), (''smooth'', ''power2.out''), (''smoothIn'', ''power2.in''),
      (''smoothInOut'', ''power2.inOut''), (''elastic'', ''elastic.out(1, 0.3)''),
      (''bounce'', ''bounce.out''), (''expo'', ''expo.out''), (''back'', ''back.out(1.7)'')]"

text \<open>\<open>motionConfig.delays\<close>.\<close>

definition delays :: "(string \<times> real) list" where
  "delays =
     [(''none'', 0), (''micro'', 0.05), (''tiny'', 0.1), (''small'', 0.15), (''medium'', 0.2),
      (''large'', 0.3)]"

text \<open>
  \<open>getDuration\<close>, \<open>getEasing\<close>, \<open>getDelay\<close>: each is the single statement
  \<open>return motionConfig.<table>[key]\<close>. \<open>Inr\<close> is a normal return.
\<close>

definition getDuration :: "string \<Rightarrow> error + real js_value" where
  "getDuration key = Inr (js_get durations key)"

definition getEasing :: "string \<Rightarrow> error + string js_value" where
  "getEasing key = Inr (js_get easings key)"

definition getDelay :: "string \<Rightarrow> error + real js_value" where
  "getDelay key = Inr (js_get delays key)"

section \<open>Motion configuration accessor (useMotionConfig)\<close>

text \<open>JavaScript's \<open>/\<close> on the result of a property read, with a number as divisor.\<close>

fun js_div :: "real js_value \<Rightarrow> real \<Rightarrow> real js_value" where
  "js_div (Value a) d = Value (a / d)"
| "js_div Undefined d = NaN"
| "js_div (Inherited k) d = NaN"
| "js_div NaN d = NaN"

text \<open>
  \<open>getAdjustedDuration\<close>, closed over the accessor's own \<open>prefersReducedMotion\<close> ref, whose
  current value is the first argument.
\<close>

definition getAdjustedDuration :: "bool \<Rightarrow> string \<Rightarrow> error + real js_value" where
  "getAdjustedDuration prefersReducedMotion key =
     (if prefersReducedMotion
      then (case getDuration key of Inl e \<Rightarrow> Inl e | Inr v \<Rightarrow> Inr (js_div v 10))
      else getDuration key)"

text \<open>
  The browser state \<open>useMotionConfig\<close> touches: the user's preference as a read of
  \<open>mediaQuery.matches\<close> reports it at that moment, the \<open>prefersReducedMotion\<close> refs created so
  far (a ref is named by its position), the \<open>change\<close> listeners registered so far, each on the
  media query list of its own call and closed over the ref it assigns, and the \<open>change\<close>
  events the browser has still to deliver: the listener addressed and the event's \<open>matches\<close>.
\<close>

record platform =
  matches :: bool
  refs :: "bool list"
  change_listeners :: "nat list"
  pending :: "(nat \<times> bool) list"

text \<open>The page before any component has run.\<close>

definition startup :: "bool \<Rightarrow> platform" where
  "startup m = \<lparr>matches = m, refs = [], change_listeners = [], pending = []\<rparr>"

text \<open>
  \<open>useMotionConfig()\<close>: \<open>ref(false)\<close>, and under \<open>import.meta.client\<close> (first argument)
  the assignment from \<open>mediaQuery.matches\<close> and \<open>addEventListener('change', ...)\<close>. The result
  is the new ref together with the new browser state.
\<close>

definition useMotionConfig :: "bool \<Rightarrow> platform \<Rightarrow> nat \<times> platform" where
  "useMotionConfig client p =
     (let r = length (refs p);
          p1 = p\<lparr>refs := refs p @ [False]\<rparr>
      in if client
         then (r, p1\<lparr>refs := (refs p1)[r := matches p1],
                     change_listeners := change_listeners p1 @ [r]\<rparr>)
         else (r, p1))"

text \<open>
  The user's preference becomes \<open>m\<close>. A read of \<open>matches\<close> reports it from now on; when it
  differs from before, a \<open>change\<close> event carrying \<open>m\<close> is owed to every registered listener.
  No listener has run yet.
\<close>

definition preference_change :: "bool \<Rightarrow> platform \<Rightarrow> platform" where
  "preference_change m p =
     (if m = matches p then p
      else p\<lparr>matches := m, pending := pending p @ map (\<lambda>r. (r, m)) (change_listeners p)\<rparr>)"

text \<open>
  The browser delivers to listener \<open>r\<close> the oldest event owed to it: the listener runs
  \<open>prefersReducedMotion.value = e.matches\<close> on its own ref. With nothing owed to \<open>r\<close> nothing
  happens.
\<close>

definition deliver_change :: "nat \<Rightarrow> platform \<Rightarrow> platform" where
  "deliver_change r p =
     (case find (\<lambda>d. fst d = r) (pending p) of
        None \<Rightarrow> p
      | Some d \<Rightarrow> p\<lparr>refs := (refs p)[r := snd d], pending := remove1 d (pending p)\<rparr>)"

datatype page_event = CallUseMotionConfig | PreferenceChange bool | DeliverChange nat

fun page_step :: "bool \<Rightarrow> page_event \<Rightarrow> platform \<Rightarrow> platform" where
  "page_step client CallUseMotionConfig p = snd (useMotionConfig client p)"
| "page_step client (PreferenceChange m) p = preference_change m p"
| "page_step client (DeliverChange r) p = deliver_change r p"

fun page_run :: "bool \<Rightarrow> page_event list \<Rightarrow> platform \<Rightarrow> platform" where
  "page_run client [] p = p"
| "page_run client (e # es) p = page_run client es (page_step client e p)"

section \<open>Scoped animation context (useGsapContext)\<close>

text \<open>
  What the composable does to the outside: callbacks it invokes, calls into the engine's
  context object, and console output. Callbacks are opaque values of type \<open>'a\<close>.
\<close>

datatype 'a effect =
    Called 'a
  | ContextAdd 'a
  | ContextRevert "'a list"
  | ConsoleWarn string

text \<open>
  The closure state: \<open>ctx\<close> (\<open>null\<close> or the live context, represented by the callbacks
  registered in it), the \<open>isReady\<close> ref, and the effects so far.
\<close>

record 'a gsap_context =
  ctx :: "'a list option"
  isReady :: bool
  effects :: "'a effect list"

definition new_context :: "'a gsap_context" where
  "new_context = \<lparr>ctx = None, isReady = False, effects = []\<rparr>"

text \<open>\<open>init\<close>: \<open>gsap.context\<close> runs the optional \<open>setup\<close> inside a fresh context.\<close>

definition init :: "'a option \<Rightarrow> 'a gsap_context \<Rightarrow> 'a gsap_context" where
  "init setup s =
     (case setup of
        Some f \<Rightarrow> s\<lparr>ctx := Some [f], isReady := True, effects := effects s @ [Called f]\<rparr>
      | None \<Rightarrow> s\<lparr>ctx := Some [], isReady := True\<rparr>)"

text \<open>\<open>revert\<close>, with \<open>options.onRevert\<close> as first argument.\<close>

definition revert :: "'a option \<Rightarrow> 'a gsap_context \<Rightarrow> 'a gsap_context" where
  "revert onRevert s =
     (case ctx s of
        Some c \<Rightarrow>
          s\<lparr>ctx := None, isReady := False,
            effects := effects s @ [ContextRevert c] @
              (case onRevert of Some f \<Rightarrow> [Called f] | None \<Rightarrow> [])\<rparr>
      | None \<Rightarrow> s)"

text \<open>\<open>add\<close>. On a live context the engine records the callback and runs it at once.\<close>

definition add :: "'a \<Rightarrow> 'a gsap_context \<Rightarrow> 'a gsap_context" where
  "add animation s =
     (case ctx s of
        Some c \<Rightarrow>
          s\<lparr>ctx := Some (c @ [animation]),
            effects := effects s @ [ContextAdd animation, Called animation]\<rparr>
      | None \<Rightarrow> s\<lparr>effects := effects s @ [ConsoleWarn ''[useGsapContext] Context not initialized'']\<rparr>)"

section \<open>Numbers (IEEE 754 binary64)\<close>

text \<open>
  A JavaScript number: a finite value, which is a rational, negative zero, an infinity or NaN.
  \<open>Finite 0\<close> is positive zero.
\<close>

datatype binary64 = Finite rat | MinusZero | PlusInfinity | MinusInfinity | NotANumber

text \<open>The number of binary digits of a natural number.\<close>

fun bit_length :: "nat \<Rightarrow> nat" where
  "bit_length n = (if n = 0 then 0 else Suc (bit_length (n div 2)))"

definition pow2 :: "int \<Rightarrow> rat" where
  "pow2 k = (if 0 \<le> k then 2 ^ nat k else 1 / 2 ^ nat (- k))"

text \<open>For a positive rational \<open>a\<close>, the exponent \<open>e\<close> with \<open>2^e \<le> a < 2^(e+1)\<close>.\<close>

definition floor_log2 :: "rat \<Rightarrow> int" where
  "floor_log2 a =
     (if 1 \<le> a then int (bit_length (nat \<lfloor>a\<rfloor>)) - 1
      else - int (bit_length (nat (\<lceil>1 / a\<rceil> - 1))))"

text \<open>The nearest integer, a tie going to the even one.\<close>

definition round_even :: "rat \<Rightarrow> int" where
  "round_even x =
     (let f = \<lfloor>x\<rfloor>; r = x - of_int f
      in if r < 1 / 2 then f else if 1 / 2 < r then f + 1 else if even f then f else f + 1)"

text \<open>
  The binary64 number nearest to a rational, ties to even: 53 significant bits, exponents down
  to -1022 (subnormal below), overflow to an infinity, underflow to a zero of the same sign.
  It is also the value of a decimal literal of the source, such as \<open>0.3\<close>.
\<close>

definition round64 :: "rat \<Rightarrow> binary64" where
  "round64 q =
     (if q = 0 then Finite 0
      else
        let a = \<bar>q\<bar>;
            e = max (floor_log2 a) (- 1022);
            u = pow2 (e - 52);
            m = round_even (a / u);
            r = of_int m * u
        in if pow2 1024 \<le> r then (if q < 0 then MinusInfinity else PlusInfinity)
           else if m = 0 then (if q < 0 then MinusZero else Finite 0)
           else Finite (if q < 0 then - r else r))"

text \<open>The integer square root, rounded down.\<close>

fun isqrt :: "nat \<Rightarrow> nat" where
  "isqrt n =
     (if n = 0 then 0
      else let r = 2 * isqrt (n div 4) in if (r + 1) * (r + 1) \<le> n then r + 1 else r)"

text \<open>The sign bit, the value of a finite number, and the zero or infinity of a given sign.\<close>

fun sign_bit :: "binary64 \<Rightarrow> bool" where
  "sign_bit (Finite q) = (q < 0)"
| "sign_bit MinusZero = True"
| "sign_bit PlusInfinity = False"
| "sign_bit MinusInfinity = True"
| "sign_bit NotANumber = False"

fun finite_value :: "binary64 \<Rightarrow> rat option" where
  "finite_value (Finite q) = Some q"
| "finite_value MinusZero = Some 0"
| "finite_value PlusInfinity = None"
| "finite_value MinusInfinity = None"
| "finite_value NotANumber = None"

definition signed_zero :: "bool \<Rightarrow> binary64" where
  "signed_zero negative = (if negative then MinusZero else Finite 0)"

definition signed_infinity :: "bool \<Rightarrow> binary64" where
  "signed_infinity negative = (if negative then MinusInfinity else PlusInfinity)"

text \<open>Negation flips the sign bit.\<close>

fun b64_neg :: "binary64 \<Rightarrow> binary64" where
  "b64_neg (Finite q) = (if q = 0 then MinusZero else Finite (- q))"
| "b64_neg MinusZero = Finite 0"
| "b64_neg PlusInfinity = MinusInfinity"
| "b64_neg MinusInfinity = PlusInfinity"
| "b64_neg NotANumber = NotANumber"

text \<open>
  The arithmetic of IEEE 754 in round-to-nearest-even: the exact result of the operation on
  the operands' values, rounded by \<open>round64\<close>, with the standard's results for zeros,
  infinities and NaN.
\<close>

definition b64_add :: "binary64 \<Rightarrow> binary64 \<Rightarrow> binary64" where
  "b64_add x y =
     (if x = NotANumber \<or> y = NotANumber then NotANumber
      else case (finite_value x, finite_value y) of
             (Some a, Some b) \<Rightarrow>
               if x = MinusZero \<and> y = MinusZero then MinusZero else round64 (a + b)
           | (Some a, None) \<Rightarrow> y
           | (None, Some b) \<Rightarrow> x
           | (None, None) \<Rightarrow> if x = y then x else NotANumber)"

definition b64_sub :: "binary64 \<Rightarrow> binary64 \<Rightarrow> binary64" where
  "b64_sub x y = b64_add x (b64_neg y)"

definition b64_mul :: "binary64 \<Rightarrow> binary64 \<Rightarrow> binary64" where
  "b64_mul x y =
     (if x = NotANumber \<or> y = NotANumber then NotANumber
      else let negative = (sign_bit x \<noteq> sign_bit y)
           in case (finite_value x, finite_value y) of
                (Some a, Some b) \<Rightarrow>
                  if a * b = 0 then signed_zero negative else round64 (a * b)
              | (Some a, None) \<Rightarrow> if a = 0 then NotANumber else signed_infinity negative
              | (None, Some b) \<Rightarrow> if b = 0 then NotANumber else signed_infinity negative
              | (None, None) \<Rightarrow> signed_infinity negative)"

definition b64_div :: "binary64 \<Rightarrow> binary64 \<Rightarrow> binary64" where
  "b64_div x y =
     (if x = NotANumber \<or> y = NotANumber then NotANumber
      else let negative = (sign_bit x \<noteq> sign_bit y)
           in case (finite_value x, finite_value y) of
                (Some a, Some b) \<Rightarrow>
                  if b = 0 then (if a = 0 then NotANumber else signed_infinity negative)
                  else if a = 0 then signed_zero negative
                  else round64 (a / b)
              | (Some a, None) \<Rightarrow> signed_zero negative
              | (None, Some b) \<Rightarrow> signed_infinity negative
              | (None, None) \<Rightarrow> NotANumber)"

text \<open>
  The square root, correctly rounded: with \<open>u\<close> the unit in the last place of the result,
  \<open>s\<close> is the root of \<open>q / u\<^sup>2\<close> rounded down, and it is rounded up when the root lies above
  \<open>s + 1/2\<close>.
\<close>

fun b64_sqrt :: "binary64 \<Rightarrow> binary64" where
  "b64_sqrt (Finite q) =
     (if q < 0 then NotANumber
      else if q = 0 then Finite 0
      else
        let h = floor_log2 q div 2;
            u = pow2 (h - 52);
            t = q / (u * u);
            s = int (isqrt (nat \<lfloor>t\<rfloor>));
            half = of_int (s * s + s) + 1 / 4;
            m = (if half < t then s + 1 else if t < half then s else if even s then s else s + 1)
        in Finite (of_int m * u))"
| "b64_sqrt MinusZero = MinusZero"
| "b64_sqrt PlusInfinity = PlusInfinity"
| "b64_sqrt MinusInfinity = NotANumber"
| "b64_sqrt NotANumber = NotANumber"

text \<open>\<open>x > y\<close>: false when an operand is NaN; the two zeros are equal.\<close>

definition b64_gt :: "binary64 \<Rightarrow> binary64 \<Rightarrow> bool" where
  "b64_gt x y =
     (if x = NotANumber \<or> y = NotANumber then False
      else case (finite_value x, finite_value y) of
             (Some a, Some b) \<Rightarrow> b < a
           | (Some a, None) \<Rightarrow> y = MinusInfinity
           | (None, Some b) \<Rightarrow> x = PlusInfinity
           | (None, None) \<Rightarrow> x = PlusInfinity \<and> y = MinusInfinity)"

text \<open>
  The operations on numbers that \<open>useMagneticEffect\<close> applies: \<open>+\<close>, \<open>-\<close>, \<open>*\<close>, \<open>/\<close>,
  \<open>** 2\<close>, \<open>Math.sqrt\<close> and \<open>>\<close>. They are built into the engine that runs the code, and the
  language leaves the precision of \<open>**\<close> and \<open>Math.sqrt\<close> to it, so the composable takes them as
  a parameter.
\<close>

record arith =
  num_add :: "binary64 \<Rightarrow> binary64 \<Rightarrow> binary64"
  num_sub :: "binary64 \<Rightarrow> binary64 \<Rightarrow> binary64"
  num_mul :: "binary64 \<Rightarrow> binary64 \<Rightarrow> binary64"
  num_div :: "binary64 \<Rightarrow> binary64 \<Rightarrow> binary64"
  num_square :: "binary64 \<Rightarrow> binary64"
  num_sqrt :: "binary64 \<Rightarrow> binary64"
  num_gt :: "binary64 \<Rightarrow> binary64 \<Rightarrow> bool"

text \<open>
  The operations as the current engines compute them: IEEE 754 arithmetic, a square as the
  correctly rounded product and a correctly rounded square root.
\<close>

definition ieee :: arith where
  "ieee =
     \<lparr>num_add = b64_add, num_sub = b64_sub, num_mul = b64_mul, num_div = b64_div,
      num_square = (\<lambda>x. b64_mul x x), num_sqrt = b64_sqrt, num_gt = b64_gt\<rparr>"

section \<open>Effect composables\<close>

text \<open>A mounted DOM element, by what \<open>getBoundingClientRect()\<close> reports for it.\<close>

record element =
  rect_left :: binary64
  rect_top :: binary64
  rect_width :: binary64
  rect_height :: binary64

text \<open>
  The \<open>Partial<ScrollTrigger.Vars>\<close> a caller may hand to \<open>useScrollReveal\<close>: the entries
  the composable reads or that can displace the ones it writes itself. For each entry \<open>None\<close>
  says that the key is absent, \<open>Some None\<close> that it is present with the value \<open>undefined\<close>
  (or \<open>null\<close>), \<open>Some (Some v)\<close> that it is present with the value \<open>v\<close>.
\<close>

record 'a scroll_trigger_config =
  cfg_trigger :: "element option option"
  cfg_start :: "string option option"
  cfg_onEnter :: "'a option option"

text \<open>
  The \<open>onEnter\<close> entry of the object given to the engine: the composable's own arrow function
  \<open>() => { isTriggered.value = true }\<close>, a caller's callback, or \<open>undefined\<close>.
\<close>

datatype 'a on_enter = SetTriggered | Caller 'a | NoHandler

record 'a scroll_trigger =
  trigger :: "element option"
  start :: "string option"
  st_onEnter :: "'a on_enter"

text \<open>
  Calls into the animation engine and the DOM, in the order the code makes them. The numbers of
  \<open>TimelineFrom\<close> are \<open>y\<close>, \<open>opacity\<close>, \<open>duration\<close>, \<open>delay\<close> and the position string; of
  \<open>GsapFrom\<close>: \<open>y\<close>, \<open>opacity\<close>, \<open>stagger\<close>, \<open>duration\<close>, \<open>ease\<close>; of \<open>GsapTo\<close>: \<open>x\<close>,
  \<open>y\<close>, \<open>duration\<close>, \<open>ease\<close>. \<open>RequestAnimationFrame n c\<close> schedules the call \<open>c\<close> and
  returns the handle \<open>n\<close>.
\<close>

datatype 'a gsap_call =
    GsapTimeline "string js_value"
  | TimelineFrom "element option" real real "real js_value" "real option" "string option"
  | GsapFrom "element option list" "'a scroll_trigger" real real real "real js_value"
      "string js_value"
  | GsapTo element binary64 binary64 binary64 string
  | AddEventListener element string
  | CancelAnimationFrame nat
  | RequestAnimationFrame nat "'a gsap_call"
  | Callback 'a

subsection \<open>Hero entrance (useHeroAnimation)\<close>

text \<open>
  The setup callback handed to \<open>useGsapContext\<close>; \<open>title\<close>, \<open>subtitle\<close> and \<open>button\<close> are
  the \<open>.value\<close> of the three refs, \<open>None\<close> for \<open>null\<close>.
\<close>

definition useHeroAnimation_setup ::
  "element option \<Rightarrow> element option \<Rightarrow> element option \<Rightarrow> real \<Rightarrow> 'a gsap_call list" where
  "useHeroAnimation_setup title subtitle button delay =
     [GsapTimeline (js_get easings ''smooth''),
      TimelineFrom title 100 0 (js_get durations ''verySlow'') (Some delay) None,
      TimelineFrom subtitle 50 0 (js_get durations ''slow'') None (Some ''-=0.6''),
      TimelineFrom button 30 0 (js_get durations ''normal'') None (Some ''-=0.4'')]"

subsection \<open>Scroll reveal (useScrollReveal)\<close>

text \<open>\<open>targets.value\<close>: one element, \<open>null\<close>, or an array of elements.\<close>

datatype targets = Single "element option" | Many "element list"

text \<open>\<open>config.scrollTrigger.start\<close>.\<close>

definition scrollTrigger_start :: string where
  "scrollTrigger_start = ''top 80%''"

text \<open>
  The object literal \<open>{ trigger, start, onEnter, ...scrollTriggerConfig }\<close>: entries of the
  caller's config, spread last, replace the ones written before them.
\<close>

definition merged_scroll_trigger ::
  "element option \<Rightarrow> 'a scroll_trigger_config option \<Rightarrow> 'a scroll_trigger" where
  "merged_scroll_trigger first cfg =
     (let start0 =
            (case cfg of
               Some c \<Rightarrow>
                 (case cfg_start c of
                    Some (Some s) \<Rightarrow> if s \<noteq> [] then s else scrollTrigger_start
                  | Some None \<Rightarrow> scrollTrigger_start
                  | None \<Rightarrow> scrollTrigger_start)
             | None \<Rightarrow> scrollTrigger_start)
      in \<lparr>trigger =
            (case cfg of
               Some c \<Rightarrow> (case cfg_trigger c of Some t \<Rightarrow> t | None \<Rightarrow> first)
             | None \<Rightarrow> first),
          start =
            (case cfg of
               Some c \<Rightarrow> (case cfg_start c of Some s \<Rightarrow> s | None \<Rightarrow> Some start0)
             | None \<Rightarrow> Some start0),
          st_onEnter =
            (case cfg of
               Some c \<Rightarrow>
                 (case cfg_onEnter c of
                    Some (Some f) \<Rightarrow> Caller f
                  | Some None \<Rightarrow> NoHandler
                  | None \<Rightarrow> SetTriggered)
             | None \<Rightarrow> SetTriggered)\<rparr>)"

text \<open>The setup callback; \<open>stagger\<close> and the offset default to 0.2 and 60.\<close>

definition useScrollReveal_setup ::
  "targets \<Rightarrow> real \<Rightarrow> real \<Rightarrow> 'a scroll_trigger_config option \<Rightarrow> 'a gsap_call list" where
  "useScrollReveal_setup tv stagger offset cfg =
     (let elements = (case tv of Many es \<Rightarrow> map Some es | Single e \<Rightarrow> [e])
      in case elements of
           [] \<Rightarrow> []
         | None # _ \<Rightarrow> []
         | Some e # _ \<Rightarrow>
             [GsapFrom elements (merged_scroll_trigger (Some e) cfg) offset 0 stagger
                (js_get durations ''slow'') (js_get easings ''smooth'')])"

text \<open>The callbacks ScrollTrigger can fire on a registered trigger.\<close>

datatype scroll_event = OnEnter | OnLeave | OnEnterBack | OnLeaveBack




subsection \<open>Magnetic hover (useMagneticEffect)\<close>

record 'a magnetic_options =
  strength :: binary64
  speed :: binary64
  radius :: binary64
  ease :: string
  onEnter :: "'a option"
  onLeave :: "'a option"

text \<open>
  The defaults of the destructured options: \<open>0.3\<close>, \<open>motionConfig.durations.normal\<close> (0.4),
  \<open>100\<close> and \<open>motionConfig.easings.smooth\<close>.
\<close>

definition default_options :: "'a magnetic_options" where
  "default_options =
     \<lparr>strength = round64 (3 / 10), speed = round64 (4 / 10), radius = Finite 100,
      ease = ''power2.out'', onEnter = None, onLeave = None\<rparr>"

text \<open>The closure state: the \<open>isActive\<close> ref and the \<open>animationFrame\<close> handle.\<close>

record magnetic =
  isActive :: bool
  animationFrame :: "nat option"

text \<open>
  \<open>calculateOffset\<close>: the offset and the cursor's distance from the centre, in the engine's
  arithmetic.
\<close>

definition calculateOffset ::
  "arith \<Rightarrow> 'a magnetic_options \<Rightarrow> element \<Rightarrow> binary64 \<Rightarrow> binary64 \<Rightarrow>
     binary64 \<times> binary64 \<times> binary64" where
  "calculateOffset ar opts el mouseX mouseY =
     (let centerX = num_add ar (rect_left el) (num_div ar (rect_width el) (Finite 2));
          centerY = num_add ar (rect_top el) (num_div ar (rect_height el) (Finite 2));
          deltaX = num_sub ar mouseX centerX;
          deltaY = num_sub ar mouseY centerY;
          distance = num_sqrt ar (num_add ar (num_square ar deltaX) (num_square ar deltaY))
      in (num_mul ar deltaX (strength opts), num_mul ar deltaY (strength opts), distance))"

text \<open>\<open>handleMouseLeave\<close>.\<close>

definition handleMouseLeave ::
  "'a magnetic_options \<Rightarrow> element option \<Rightarrow> magnetic \<Rightarrow> magnetic \<times> 'a gsap_call list" where
  "handleMouseLeave opts target s =
     (case target of
        None \<Rightarrow> (s, [])
      | Some el \<Rightarrow>
          (s\<lparr>isActive := False\<rparr>,
           (case onLeave opts of Some f \<Rightarrow> [Callback f] | None \<Rightarrow> []) @
           [GsapTo el (Finite 0) (Finite 0) (speed opts) (ease opts)]))"

text \<open>
  \<open>handleMouseMove\<close> for a \<open>mousemove\<close> at \<open>(mouseX, mouseY)\<close>; \<open>frame\<close> is the handle
  \<open>requestAnimationFrame\<close> returns for this call. A handle of 0 is falsy, like \<open>null\<close>.
\<close>

definition handleMouseMove ::
  "arith \<Rightarrow> 'a magnetic_options \<Rightarrow> element option \<Rightarrow> binary64 \<Rightarrow> binary64 \<Rightarrow> nat \<Rightarrow>
     magnetic \<Rightarrow> magnetic \<times> 'a gsap_call list" where
  "handleMouseMove ar opts target mouseX mouseY frame s =
     (case target of
        None \<Rightarrow> (s, [])
      | Some el \<Rightarrow>
          (case calculateOffset ar opts el mouseX mouseY of
             (dx, dy, distance) \<Rightarrow>
               if num_gt ar distance (radius opts) then handleMouseLeave opts target s
               else
                 (s\<lparr>isActive := True, animationFrame := Some frame\<rparr>,
                  (if \<not> isActive s
                   then (case onEnter opts of Some f \<Rightarrow> [Callback f] | None \<Rightarrow> [])
                   else []) @
                  (case animationFrame s of
                     Some n \<Rightarrow> if n \<noteq> 0 then [CancelAnimationFrame n] else []
                   | None \<Rightarrow> []) @
                  [RequestAnimationFrame frame (GsapTo el dx dy (speed opts) (ease opts))])))"

text \<open>\<open>enable\<close>, run on mount.\<close>

definition enable :: "element option \<Rightarrow> 'a gsap_call list" where
  "enable target =
     (case target of
        None \<Rightarrow> []
      | Some el \<Rightarrow> [AddEventListener el ''mousemove'', AddEventListener el ''mouseleave''])"

section \<open>Component registry (useComponentRegistry)\<close>

datatype ComponentCategory = Buttons | Cards | Sections | Forms | Text | Navigation | Overlays

datatype Complexity = Beginner | Intermediate | Advanced

text \<open>
  \<open>ComponentMeta\<close>. A string is a list of characters of type \<open>'ch\<close> (UTF-16 code units in the
  engine); the loader \<open>component\<close> is an opaque value.
\<close>

record ('ch, 'c) ComponentMeta =
  meta_id :: "'ch list"
  name :: "'ch list"
  category :: ComponentCategory
  description :: "'ch list"
  tags :: "'ch list list"
  complexity :: Complexity
  animationType :: "'ch list list"
  gsapFeatures :: "'ch list list"
  component :: 'c

text \<open>The catalogue as shipped: its only entry is commented out.\<close>

definition COMPONENT_REGISTRY :: "('ch, 'c) ComponentMeta list" where
  "COMPONENT_REGISTRY = []"

text \<open>
  \<open>String.prototype.toLowerCase\<close> is built into the engine: it replaces every character by
  its lower-case mapping of the Unicode Character Database, which for some characters depends
  on what precedes and what follows them in the string, and may be several characters long.
  The mapping is a parameter: \<open>lc before c after\<close> is what the character \<open>c\<close> becomes between
  \<open>before\<close> and \<open>after\<close>.
\<close>

type_synonym 'ch case_mapping = "'ch list \<Rightarrow> 'ch \<Rightarrow> 'ch list \<Rightarrow> 'ch list"

fun lower_from :: "'ch case_mapping \<Rightarrow> 'ch list \<Rightarrow> 'ch list \<Rightarrow> 'ch list" where
  "lower_from lc before [] = []"
| "lower_from lc before (c # after) = lc before c after @ lower_from lc (before @ [c]) after"

definition toLowerCase :: "'ch case_mapping \<Rightarrow> 'ch list \<Rightarrow> 'ch list" where
  "toLowerCase lc s = lower_from lc [] s"

text \<open>\<open>String.prototype.includes\<close>: the argument occurs at some position of the receiver.\<close>

fun includes_str :: "'ch list \<Rightarrow> 'ch list \<Rightarrow> bool" where
  "includes_str [] q = (q = [])"
| "includes_str (c # cs) q = (prefix q (c # cs) \<or> includes_str cs q)"

text \<open>
  \<open>search\<close>. The catalogue it filters is an argument, so that its properties are stated for
  any catalogue; the module applies it to \<open>COMPONENT_REGISTRY\<close>.
\<close>

definition search ::
  "'ch case_mapping \<Rightarrow> ('ch, 'c) ComponentMeta list \<Rightarrow> 'ch list \<Rightarrow> ('ch, 'c) ComponentMeta list" where
  "search lc registry query =
     (let lowerQuery = toLowerCase lc query
      in filter (\<lambda>c. includes_str (toLowerCase lc (name c)) lowerQuery \<or>
                     includes_str (toLowerCase lc (description c)) lowerQuery \<or>
                     list_ex (\<lambda>tag. includes_str (toLowerCase lc tag) lowerQuery) (tags c))
           registry)"

text \<open>The fields of an entry that \<open>search\<close> looks at.\<close>

definition texts :: "('ch, 'c) ComponentMeta \<Rightarrow> 'ch list list" where
  "texts c = name c # description c # tags c"

text \<open>The lower-cased text holds the lower-cased query at some position.\<close>

definition contains_lowered :: "'ch case_mapping \<Rightarrow> 'ch list \<Rightarrow> 'ch list \<Rightarrow> bool" where
  "contains_lowered lc txt q =
     (\<exists>before after. toLowerCase lc txt = before @ toLowerCase lc q @ after)"

text \<open>
  What the documentation calls a case-insensitive substring: some stretch of the text has the
  query's length and equals it character by character once case is folded by \<open>fold_case\<close>.
\<close>

definition contains_ignoring_case :: "('ch \<Rightarrow> 'ch) \<Rightarrow> 'ch list \<Rightarrow> 'ch list \<Rightarrow> bool" where
  "contains_ignoring_case fold_case txt q =
     (\<exists>before mid after. txt = before @ mid @ after \<and>
        list_all2 (\<lambda>a b. fold_case a = fold_case b) mid q)"

text \<open>
  The Unicode lower-case mapping of the ASCII characters: the letters A to Z move to a to z,
  whatever surrounds them, and every other ASCII character stays. Characters beyond ASCII are
  not in this table.
\<close>

definition lower_char :: "char \<Rightarrow> char" where
  "lower_char c =
     (case map_of (zip ''ABCDEFGHIJKLMNOPQRSTUVWXYZ'' ''abcdefghijklmnopqrstuvwxyz'') c of
        Some l \<Rightarrow> l
      | None \<Rightarrow> c)"

definition ascii_lower :: "char case_mapping" where
  "ascii_lower before c after = [lower_char c]"

text \<open>
  The Unicode lower-case mapping of text written in the Greek letters U+0391 to U+03A9 and
  U+03B1 to U+03C9, by code point: a capital moves 32 code points up, except capital sigma
  (U+03A3, 931), which becomes final sigma (U+03C2, 962) when a letter precedes it and no
  letter follows it (the condition Final_Sigma of the database's SpecialCasing) and small
  sigma (U+03C3, 963) otherwise. Other characters are not in this table.
\<close>

definition greek_letter :: "nat \<Rightarrow> bool" where
  "greek_letter c = ((913 \<le> c \<and> c \<le> 937 \<and> c \<noteq> 930) \<or> (945 \<le> c \<and> c \<le> 969))"

fun final_sigma :: "nat list \<Rightarrow> nat list \<Rightarrow> bool" where
  "final_sigma [] after = False"
| "final_sigma (b # bs) [] = greek_letter (last (b # bs))"
| "final_sigma (b # bs) (a # as) = (greek_letter (last (b # bs)) \<and> \<not> greek_letter a)"

definition greek_lower :: "nat case_mapping" where
  "greek_lower before c after =
     (if c = 931 then (if final_sigma before after then [962] else [963])
      else if 913 \<le> c \<and> c \<le> 937 \<and> c \<noteq> 930 then [c + 32]
      else [c])"

text \<open>
  A catalogue entry whose name is the five Greek capitals omicron, delta, omicron, sigma,
  alpha, by code points.
\<close>

definition odos :: "(nat, unit) ComponentMeta" where
  "odos =
     \<lparr>meta_id = [], name = [927, 916, 927, 931, 913], category = Text, description = [],
      tags = [], complexity = Beginner, animationType = [], gsapFeatures = [], component = ()\<rparr>"

text \<open>The entry the source keeps as a commented example of a registration.\<close>

definition magnetic_button :: "(char, unit) ComponentMeta" where
  "magnetic_button =
     \<lparr>meta_id = ''magnetic-button'', name = ''Magnetic Button'', category = Buttons,
      description = ''Button that follows cursor with magnetic effect based on distance'',
      tags = [''hover'', ''mouse'', ''interactive''], complexity = Intermediate,
      animationType = [''hover''], gsapFeatures = [''timeline''], component = ()\<rparr>"

text \<open>An element 100 by 40 pixels whose centre is the origin of the viewport.\<close>

definition centered_element :: element where
  "centered_element =
     \<lparr>rect_left = Finite (- 50), rect_top = Finite (- 20), rect_width = Finite 100,
      rect_height = Finite 40\<rparr>"

text \<open>
  The value ref \<open>i\<close> will hold once every event owed to its listener has been delivered: the
  \<open>matches\<close> of the newest such event, or the ref's present value when none is owed.
\<close>

definition settled :: "platform \<Rightarrow> nat \<Rightarrow> bool" where
  "settled p i = last (refs p ! i # map snd (filter (\<lambda>d. fst d = i) (pending p)))"

text \<open>
  Invariant of the page: on the client the listeners are exactly one per ref, in creation
  order, events are owed to existing listeners only, and every ref settles on the current
  preference; without a client nothing listens, nothing is owed and every ref stays \<open>false\<close>.
\<close>

definition flags_follow :: "bool \<Rightarrow> platform \<Rightarrow> bool" where
  "flags_follow client p =
     (if client
      then change_listeners p = [0..<length (refs p)] \<and>
           list_all (\<lambda>d. fst d < length (refs p)) (pending p) \<and>
           list_all (\<lambda>i. settled p i = matches p) [0..<length (refs p)]
      else change_listeners p = [] \<and> pending p = [] \<and> list_all (\<lambda>b. b = False) (refs p))"

section \<open>Properties of the configuration tables\<close>

lemma js_get_own: "(k, v) \<in> set obj \<Longrightarrow> distinct (map fst obj) \<Longrightarrow> js_get obj k = Value v"
  by (simp add: js_get_def)

lemma js_get_missing:
  "k \<notin> set (map fst obj) \<Longrightarrow>
     js_get obj k = (if k \<in> set object_prototype then Inherited k else Undefined)"
  by (simp add: js_get_def map_of_eq_None_iff[THEN iffD2])

lemma durations_keys:
  "map fst durations = [''instant'', ''fast'', ''normal'', ''slow'', ''verySlow'']"
  by (simp add: durations_def)

lemma easings_keys:
  "map fst easings =
     [''linear'', ''smooth'', ''smoothIn'', ''smoothInOut'', ''elastic'', ''bounce'', ''expo'',
      ''back'']"
  by (simp add: easings_def)

lemma delays_keys:
  "map fst delays = [''none'', ''micro'', ''tiny'', ''small'', ''medium'', ''large'']"
  by (simp add: delays_def)

text \<open>
  Claim C1, as the code has it: for a tier name of the table each of \<open>getDuration\<close>,
  \<open>getEasing\<close> and \<open>getDelay\<close> returns the configured value; for any other name it returns
  as well, with the result of the plain property read: \<open>undefined\<close>, or the inherited member
  when the name is one of \<open>Object.prototype\<close>. No name makes an accessor fail.
\<close>

theorem tier_lookup_returns:
  "(\<forall>v. (k, v) \<in> set durations \<longrightarrow> getDuration k = Inr (Value v)) \<and>
   (\<forall>v. (k, v) \<in> set easings \<longrightarrow> getEasing k = Inr (Value v)) \<and>
   (\<forall>v. (k, v) \<in> set delays \<longrightarrow> getDelay k = Inr (Value v)) \<and>
   (k \<notin> set (map fst durations) \<longrightarrow>
      getDuration k = Inr (if k \<in> set object_prototype then Inherited k else Undefined)) \<and>
   (k \<notin> set (map fst easings) \<longrightarrow>
      getEasing k = Inr (if k \<in> set object_prototype then Inherited k else Undefined)) \<and>
   (k \<notin> set (map fst delays) \<longrightarrow>
      getDelay k = Inr (if k \<in> set object_prototype then Inherited k else Undefined))"
proof -
  have d: "distinct (map fst durations)" by (simp add: durations_keys)
  have e: "distinct (map fst easings)" by (simp add: easings_keys)
  have l: "distinct (map fst delays)" by (simp add: delays_keys)
  show ?thesis
    unfolding getDuration_def getEasing_def getDelay_def
    using js_get_own [OF _ d] js_get_own [OF _ e] js_get_own [OF _ l]
      js_get_missing [of k durations] js_get_missing [of k easings] js_get_missing [of k delays]
    by blast
qed

text \<open>
  Claim C1 at concrete names: three configured tiers, the unknown name \<open>warp\<close>, the inherited
  name \<open>valueOf\<close>, and a duration tier asked of the delay table.
\<close>

theorem tier_lookup_returns_witness:
  "getDuration ''slow'' = Inr (Value 0.6) \<and> getEasing ''back'' = Inr (Value ''back.out(1.7)'') \<and>
   getDelay ''micro'' = Inr (Value 0.05) \<and>
   getDuration ''warp'' = Inr Undefined \<and> getEasing ''valueOf'' = Inr (Inherited ''valueOf'') \<and>
   getDelay ''fast'' = Inr Undefined"
proof -
  have 1: "(''slow'', 0.6) \<in> set durations" by (simp add: durations_def)
  have 2: "(''back'', ''back.out(1.7)'') \<in> set easings" by (simp add: easings_def)
  have 3: "(''micro'', 0.05) \<in> set delays" by (simp add: delays_def)
  have 4: "''warp'' \<notin> set (map fst durations)" by (simp add: durations_keys)
  have 5: "''valueOf'' \<notin> set (map fst easings)" by (simp add: easings_keys)
  have 6: "''fast'' \<notin> set (map fst delays)" by (simp add: delays_keys)
  have 7: "''warp'' \<notin> set object_prototype" "''fast'' \<notin> set object_prototype"
    "''valueOf'' \<in> set object_prototype" by (simp_all add: object_prototype_def)
  show ?thesis
    using tier_lookup_returns [of "''slow''"] tier_lookup_returns [of "''back''"]
      tier_lookup_returns [of "''micro''"] tier_lookup_returns [of "''warp''"]
      tier_lookup_returns [of "''valueOf''"] tier_lookup_returns [of "''fast''"]
      1 2 3 4 5 6 7
    by simp
qed

text \<open>
  Claim C1 as worded fails: \<open>warp\<close> is a tier of none of the three tables, and each accessor
  returns \<open>undefined\<close> for it instead of failing with \<open>UnknownTierError\<close>.
\<close>

theorem unknown_tier_returns_undefined:
  "''warp'' \<notin> set (map fst durations) \<and> getDuration ''warp'' = Inr Undefined \<and>
   ''warp'' \<notin> set (map fst easings) \<and> getEasing ''warp'' = Inr Undefined \<and>
   ''warp'' \<notin> set (map fst delays) \<and> getDelay ''warp'' = Inr Undefined"
  by (simp add: getDuration_def getEasing_def getDelay_def js_get_def durations_def easings_def
      delays_def object_prototype_def)

text \<open>
  Claim C4: for every tier of the duration table, \<open>getAdjustedDuration\<close> is a tenth of
  \<open>getDuration\<close> when the reduced-motion flag is set and \<open>getDuration\<close> itself when it is
  not.
\<close>

theorem getAdjustedDuration_tenth:
  "(k, d) \<in> set durations \<Longrightarrow>
     getDuration k = Inr (Value d) \<and>
     getAdjustedDuration True k = Inr (Value (d / 10)) \<and>
     getAdjustedDuration False k = Inr (Value d)"
proof -
  assume "(k, d) \<in> set durations"
  moreover have "distinct (map fst durations)" by (simp add: durations_keys)
  ultimately have "getDuration k = Inr (Value d)"
    by (simp add: getDuration_def js_get_own)
  then show ?thesis by (simp add: getAdjustedDuration_def)
qed

text \<open>Claim C4 at the tier \<open>slow\<close>: 0.6 seconds, 0.06 under reduced motion.\<close>

theorem getAdjustedDuration_tenth_witness:
  "(''slow'', 0.6) \<in> set durations \<and> getDuration ''slow'' = Inr (Value 0.6) \<and>
   getAdjustedDuration True ''slow'' = Inr (Value 0.06) \<and>
   getAdjustedDuration False ''slow'' = Inr (Value 0.6)"
proof -
  have h: "(''slow'', 0.6) \<in> set durations" by (simp add: durations_def)
  show ?thesis using h getAdjustedDuration_tenth [OF h] by simp
qed

section \<open>Properties of the reduced-motion flag\<close>

lemma flags_follow_client_iff:
  "flags_follow True p =
     (change_listeners p = [0..<length (refs p)] \<and>
      (\<forall>d \<in> set (pending p). fst d < length (refs p)) \<and>
      (\<forall>i < length (refs p). settled p i = matches p))"
  by (auto simp: flags_follow_def list_all_iff)

lemma flags_follow_server_iff:
  "flags_follow False p =
     (change_listeners p = [] \<and> pending p = [] \<and> (\<forall>b \<in> set (refs p). \<not> b))"
  by (auto simp: flags_follow_def list_all_iff)

lemma flags_follow_startup: "flags_follow client (startup m)"
  by (simp add: flags_follow_def startup_def)

lemma filter_owed_none:
  "\<forall>d \<in> set ds. fst d < (n::nat) \<Longrightarrow> filter (\<lambda>d. fst d = n) ds = []"
  by (induction ds) auto

lemma flags_follow_use:
  assumes "flags_follow client p"
  shows "flags_follow client (snd (useMotionConfig client p))"
proof (cases client)
  case True
  let ?n = "length (refs p)"
  let ?q = "snd (useMotionConfig True p)"
  from assms True have l: "change_listeners p = [0..<?n]"
    and o: "\<forall>d \<in> set (pending p). fst d < ?n"
    and v: "\<forall>i < ?n. settled p i = matches p"
    by (simp_all add: flags_follow_client_iff)
  have q: "refs ?q = refs p @ [matches p]" "pending ?q = pending p" "matches ?q = matches p"
    "change_listeners ?q = [0..<Suc ?n]"
    by (simp_all add: useMotionConfig_def Let_def l)
  have "settled ?q i = matches p" if "i < Suc ?n" for i
  proof (cases "i < ?n")
    case True
    then have "settled ?q i = settled p i"
      by (simp add: settled_def q nth_append)
    with v True show ?thesis by simp
  next
    case False
    with that have "i = ?n" by simp
    then show ?thesis
      by (simp add: settled_def q filter_owed_none [OF o])
  qed
  with o q True show ?thesis
    by (auto simp: flags_follow_client_iff less_Suc_eq)
next
  case False
  with assms show ?thesis
    by (auto simp: flags_follow_server_iff useMotionConfig_def Let_def)
qed

lemma filter_owed_fresh:
  "filter (\<lambda>d. fst d = i) (map (\<lambda>r. (r, m)) [0..<n]) = (if i < n then [(i::nat, m)] else [])"
  by (induction n) auto

lemma flags_follow_preference:
  assumes "flags_follow client p"
  shows "flags_follow client (preference_change m p)"
proof (cases "m = matches p")
  case True
  with assms show ?thesis by (simp add: preference_change_def)
next
  case changed: False
  show ?thesis
  proof (cases client)
    case True
    let ?n = "length (refs p)"
    from assms True have l: "change_listeners p = [0..<?n]"
      and o: "\<forall>d \<in> set (pending p). fst d < ?n"
      by (simp_all add: flags_follow_client_iff)
    have "settled (preference_change m p) i = m" if "i < ?n" for i
      using that changed by (simp add: settled_def preference_change_def l filter_owed_fresh)
    with l o changed True show ?thesis
      by (auto simp: flags_follow_client_iff preference_change_def)
  next
    case False
    with assms show ?thesis
      by (auto simp: flags_follow_server_iff preference_change_def)
  qed
qed

lemma find_owed:
  "find (\<lambda>d. fst d = r) ds = Some d \<Longrightarrow>
     fst d = r \<and> d \<in> set ds \<and>
     filter (\<lambda>d. fst d = r) ds = d # filter (\<lambda>d. fst d = r) (remove1 d ds)"
proof (induction ds)
  case Nil
  then show ?case by simp
next
  case (Cons x xs)
  then show ?case by (cases "fst x = r") auto
qed

lemma filter_owed_other:
  "fst d \<noteq> i \<Longrightarrow> filter (\<lambda>d. fst d = i) (remove1 d ds) = filter (\<lambda>d. fst d = i) ds"
  by (induction ds) auto

lemma flags_follow_deliver:
  assumes "flags_follow client p"
  shows "flags_follow client (deliver_change r p)"
proof (cases "find (\<lambda>d. fst d = r) (pending p)")
  case None
  with assms show ?thesis by (simp add: deliver_change_def)
next
  case (Some d)
  then have client
    using assms by (cases client) (auto simp: flags_follow_server_iff)
  let ?n = "length (refs p)"
  let ?q = "deliver_change r p"
  from assms \<open>client\<close> have l: "change_listeners p = [0..<?n]"
    and o: "\<forall>d \<in> set (pending p). fst d < ?n"
    and v: "\<forall>i < ?n. settled p i = matches p"
    by (simp_all add: flags_follow_client_iff)
  from find_owed [OF Some] have d: "fst d = r" "d \<in> set (pending p)"
    and f: "filter (\<lambda>d. fst d = r) (pending p) =
              d # filter (\<lambda>d. fst d = r) (remove1 d (pending p))"
    by simp_all
  from d o have r: "r < ?n" by auto
  have q: "refs ?q = (refs p)[r := snd d]" "pending ?q = remove1 d (pending p)"
    "matches ?q = matches p" "change_listeners ?q = change_listeners p"
    by (simp_all add: deliver_change_def Some)
  have "settled ?q i = settled p i" if "i < ?n" for i
  proof (cases "i = r")
    case True
    have "settled p r = last (snd d # map snd (filter (\<lambda>d. fst d = r) (remove1 d (pending p))))"
      unfolding settled_def by (subst f) simp
    moreover have "settled ?q r = last (snd d # map snd (filter (\<lambda>d. fst d = r) (remove1 d (pending p))))"
      using r by (simp add: settled_def q)
    ultimately show ?thesis using True by simp
  next
    case False
    then show ?thesis
      using d by (simp add: settled_def q filter_owed_other)
  qed
  moreover have "\<forall>d' \<in> set (remove1 d (pending p)). fst d' < ?n"
    using o by (meson notin_set_remove1)
  ultimately show ?thesis
    using \<open>client\<close> l v by (simp add: flags_follow_client_iff q)
qed

lemma flags_follow_run:
  "flags_follow client p \<Longrightarrow> flags_follow client (page_run client es p)"
proof (induction es arbitrary: p)
  case Nil
  then show ?case by simp
next
  case (Cons e es)
  have "flags_follow client (page_step client e p)"
    using Cons.prems
    by (cases e) (simp_all add: flags_follow_use flags_follow_preference flags_follow_deliver)
  then show ?case using Cons.IH by simp
qed

lemma refs_count:
  "length (refs (page_run client es p)) =
     length (refs p) + length (filter (\<lambda>e. e = CallUseMotionConfig) es)"
proof (induction es arbitrary: p)
  case Nil
  then show ?case by simp
next
  case (Cons e es)
  show ?case
  proof (cases e)
    case CallUseMotionConfig
    then show ?thesis
      by (simp add: Cons.IH useMotionConfig_def Let_def)
  next
    case (PreferenceChange m)
    then show ?thesis
      by (simp add: Cons.IH preference_change_def)
  next
    case (DeliverChange r)
    then show ?thesis
      by (simp add: Cons.IH deliver_change_def split: option.splits)
  qed
qed

lemma not_owed_settled: "k \<notin> fst ` set (pending p) \<Longrightarrow> settled p k = refs p ! k"
proof -
  assume "k \<notin> fst ` set (pending p)"
  then have "\<forall>d \<in> set (pending p). fst d \<noteq> k" by force
  then have "filter (\<lambda>d. fst d = k) (pending p) = []"
    by (simp add: filter_empty_conv)
  then show ?thesis by (simp add: settled_def)
qed

lemma flags_follow_value:
  assumes "flags_follow client p" and "k < length (refs p)"
    and "k \<notin> fst ` set (pending p)"
  shows "refs p ! k = (client \<and> matches p)"
proof (cases client)
  case True
  with assms(1,2) have "settled p k = matches p"
    by (simp add: flags_follow_client_iff)
  with not_owed_settled [OF assms(3)] True show ?thesis by simp
next
  case False
  with assms(1) have "flags_follow False p" by simp
  then have "\<forall>b \<in> set (refs p). \<not> b"
    unfolding flags_follow_server_iff by blast
  moreover have "refs p ! k \<in> set (refs p)" using assms(2) by simp
  ultimately have "\<not> refs p ! k" by blast
  with False show ?thesis by simp
qed

text \<open>
  Claim C3, as the code has it: every call of the accessor creates a flag of its own,
  initialised at that call from the preference as it then is (\<open>false\<close> where there is no
  client), and on the client a listener of its own, the only later writer of that flag. In
  every state the page can reach, any two flags whose listeners are owed no change event hold
  the same value, the current preference.
\<close>

theorem accessor_flags_agree:
  assumes "p = page_run client es (startup m)"
    and "i < length (refs p)" and "j < length (refs p)"
    and "i \<notin> fst ` set (pending p)" and "j \<notin> fst ` set (pending p)"
  shows "refs p ! i = refs p ! j \<and> refs p ! i = (client \<and> matches p) \<and>
         length (refs p) = length (filter (\<lambda>e. e = CallUseMotionConfig) es) \<and>
         change_listeners p = (if client then [0..<length (refs p)] else [])"
proof -
  have f: "flags_follow client p"
    unfolding assms(1) by (rule flags_follow_run [OF flags_follow_startup])
  have 1: "refs p ! i = (client \<and> matches p)"
    by (rule flags_follow_value [OF f assms(2,4)])
  have 2: "refs p ! j = (client \<and> matches p)"
    by (rule flags_follow_value [OF f assms(3,5)])
  have 3: "length (refs p) = length (filter (\<lambda>e. e = CallUseMotionConfig) es)"
    unfolding assms(1) by (simp add: refs_count startup_def)
  have 4: "change_listeners p = (if client then [0..<length (refs p)] else [])"
    using f by (cases client) (simp_all add: flags_follow_client_iff flags_follow_server_iff)
  from 1 2 3 4 show ?thesis by blast
qed

text \<open>
  Claim C3 on a page where the accessor is called, the preference turns on, the accessor is
  called again and the first listener receives its event: both flags are set.
\<close>

theorem accessor_flags_agree_witness:
  "refs (page_run True
      [CallUseMotionConfig, PreferenceChange True, CallUseMotionConfig, DeliverChange 0]
      (startup False)) ! 0 =
   refs (page_run True
      [CallUseMotionConfig, PreferenceChange True, CallUseMotionConfig, DeliverChange 0]
      (startup False)) ! 1 \<and>
   refs (page_run True
      [CallUseMotionConfig, PreferenceChange True, CallUseMotionConfig, DeliverChange 0]
      (startup False)) ! 0"
proof -
  let ?p = "page_run True
      [CallUseMotionConfig, PreferenceChange True, CallUseMotionConfig, DeliverChange 0]
      (startup False)"
  have l: "length (refs ?p) = 2"
    by (simp add: useMotionConfig_def preference_change_def deliver_change_def startup_def
        Let_def)
  have q: "pending ?p = []"
    by (simp add: useMotionConfig_def preference_change_def deliver_change_def startup_def
        Let_def)
  have m: "matches ?p"
    by (simp add: useMotionConfig_def preference_change_def deliver_change_def startup_def
        Let_def)
  have "0 < length (refs ?p)" "1 < length (refs ?p)"
    "0 \<notin> fst ` set (pending ?p)" "1 \<notin> fst ` set (pending ?p)"
    using l q by simp_all
  from accessor_flags_agree [OF refl this] m show ?thesis by auto
qed

text \<open>
  Claim C3 as worded fails: after two calls of the accessor there are two flags and two change
  listeners, one on each flag, not one flag with a single listener.
\<close>

theorem one_listener_per_accessor:
  "change_listeners (page_run True [CallUseMotionConfig, CallUseMotionConfig] (startup False)) =
     [0, 1] \<and>
   length (refs (page_run True [CallUseMotionConfig, CallUseMotionConfig] (startup False))) = 2"
  by (simp add: useMotionConfig_def startup_def Let_def)

text \<open>
  Nor do two flags agree at every moment: a flag created after the preference turned on reads
  the new value while the event owed to the older flag's listener is still undelivered.
\<close>

lemma flags_differ_while_owed:
  "refs (page_run True [CallUseMotionConfig, PreferenceChange True, CallUseMotionConfig]
      (startup False)) = [False, True] \<and>
   pending (page_run True [CallUseMotionConfig, PreferenceChange True, CallUseMotionConfig]
      (startup False)) = [(0, True)]"
  by (simp add: useMotionConfig_def preference_change_def startup_def Let_def)

section \<open>Properties of the scoped animation context\<close>

text \<open>
  Claim C5: \<open>revert\<close> is idempotent. A second call in succession leaves the context, the
  \<open>isReady\<close> flag and the effects (engine revert, completion callback) exactly as the first
  call left them; on a context that was set up, the two calls revert the engine's context once
  and invoke the completion callback once.
\<close>

theorem revert_idempotent:
  "revert onRevert (revert onRevert s) = revert onRevert s \<and>
   ctx (revert onRevert s) = None \<and>
   effects (revert (Some finished) (revert (Some finished) (init (Some setup) new_context))) =
     [Called setup, ContextRevert [setup], Called finished]"
  by (simp add: revert_def init_def new_context_def split: option.splits)

lemma add_while_live:
  "ctx (add animation (init setup new_context)) =
     Some ((case setup of Some f \<Rightarrow> [f] | None \<Rightarrow> []) @ [animation]) \<and>
   effects (add animation (init None new_context)) = [ContextAdd animation, Called animation]"
  by (simp add: add_def init_def new_context_def split: option.splits)

text \<open>
  Claim C6: \<open>add\<close> after \<open>revert\<close> registers nothing. The context stays \<open>null\<close>, the state is
  the one \<open>revert\<close> left, and the only effect is the console warning.
\<close>

theorem add_after_revert_warns:
  "add animation (revert onRevert s) =
     (revert onRevert s)
       \<lparr>effects := effects (revert onRevert s) @
          [ConsoleWarn ''[useGsapContext] Context not initialized'']\<rparr> \<and>
   ctx (add animation (revert onRevert s)) = None \<and>
   isReady (add animation (revert onRevert s)) = isReady (revert onRevert s)"
  by (simp add: revert_def add_def split: option.splits)

section \<open>Properties of the effect composables\<close>

text \<open>
  Claim C2 at a missing target: the magnetic hover registers no listener and the scroll reveal
  registers no animation, for \<open>null\<close> and for an empty array; the hero entrance, which has no
  guard, still creates its timeline and registers its three segments, each on a \<open>null\<close>
  target.
\<close>

theorem hero_registers_on_missing_targets:
  "enable None = ([] :: unit gsap_call list) \<and>
   useScrollReveal_setup (Single None) 0.2 60 None = ([] :: unit gsap_call list) \<and>
   useScrollReveal_setup (Many []) 0.2 60 None = ([] :: unit gsap_call list) \<and>
   useHeroAnimation_setup None None None 0.3 =
     ([GsapTimeline (Value ''power2.out''),
       TimelineFrom None 100 0 (Value 1) (Some 0.3) None,
       TimelineFrom None 50 0 (Value 0.6) None (Some ''-=0.6''),
       TimelineFrom None 30 0 (Value 0.4) None (Some ''-=0.4'')] :: unit gsap_call list)"
  by (simp add: enable_def useScrollReveal_setup_def useHeroAnimation_setup_def js_get_def
      easings_def durations_def)

lemma floor_numeral_quotient: "\<lfloor>numeral a / numeral b :: rat\<rfloor> = numeral a div numeral b"
  using floor_divide_of_int_eq [of "numeral a" "numeral b", where ?'a = rat] by simp

lemma ceiling_numeral_quotient:
  "\<lceil>numeral a / numeral b :: rat\<rceil> = - ((- numeral a) div numeral b)"
  using floor_divide_of_int_eq [of "- numeral a" "numeral b", where ?'a = rat]
  by (simp add: ceiling_def)

lemma bit_length_0: "bit_length 0 = 0"
  by simp

lemma bit_length_pos: "0 < n \<Longrightarrow> bit_length n = Suc (bit_length (n div 2))"
  by (subst bit_length.simps) simp

lemma isqrt_0: "isqrt 0 = 0"
  by simp

lemma isqrt_pos:
  "0 < n \<Longrightarrow>
     isqrt n = (let r = 2 * isqrt (n div 4) in if (r + 1) * (r + 1) \<le> n then r + 1 else r)"
  by (subst isqrt.simps) simp

declare bit_length.simps [simp del] isqrt.simps [simp del]

lemmas binary64_eval =
  floor_numeral_quotient ceiling_numeral_quotient bit_length_0 bit_length_pos isqrt_0 isqrt_pos
  round64_def floor_log2_def round_even_def pow2_def Let_def
  b64_add_def b64_sub_def b64_mul_def b64_div_def b64_gt_def signed_zero_def signed_infinity_def

lemmas magnetic_eval =
  handleMouseMove_def handleMouseLeave_def calculateOffset_def ieee_def default_options_def
  centered_element_def

lemma three_tenths: "round64 (3 / 10) = Finite (5404319552844595 / 18014398509481984)"
  by (simp add: binary64_eval)

lemma four_tenths: "round64 (4 / 10) = Finite (3602879701896397 / 9007199254740992)"
  by (simp add: binary64_eval)

text \<open>
  Claim C7, as the code has it: when the distance the handler computes,
  \<open>Math.sqrt(deltaX ** 2 + deltaY ** 2)\<close> in the engine's arithmetic, is not greater than the
  radius, the mouse-move handler schedules an animation to the offset
  \<open>(pointer - centre) * strength\<close>, computed in that arithmetic, and the effect is active; when
  the computed distance is greater than the radius it animates back to the zero offset and the
  effect is inactive. This holds whatever the engine's arithmetic is.
\<close>

theorem magnetic_hover_offset:
  "(let cx = num_add ar (rect_left el) (num_div ar (rect_width el) (Finite 2));
        cy = num_add ar (rect_top el) (num_div ar (rect_height el) (Finite 2));
        dx = num_sub ar mouseX cx;
        dy = num_sub ar mouseY cy;
        d = num_sqrt ar (num_add ar (num_square ar dx) (num_square ar dy));
        r = handleMouseMove ar opts (Some el) mouseX mouseY frame s
    in (\<not> num_gt ar d (radius opts) \<longrightarrow>
          last (snd r) =
            RequestAnimationFrame frame
              (GsapTo el (num_mul ar dx (strength opts)) (num_mul ar dy (strength opts))
                 (speed opts) (ease opts)) \<and>
          isActive (fst r)) \<and>
       (num_gt ar d (radius opts) \<longrightarrow>
          last (snd r) = GsapTo el (Finite 0) (Finite 0) (speed opts) (ease opts) \<and>
          \<not> isActive (fst r)))"
  by (simp add: handleMouseMove_def handleMouseLeave_def calculateOffset_def Let_def)

text \<open>
  Claim C7 on the documented example, in IEEE arithmetic: centre \<open>(0, 0)\<close>, strength 0.3 and
  radius 100. A pointer at \<open>(100, 0)\<close> gives the offset \<open>(30, 0)\<close>; a pointer at \<open>(101, 0)\<close>
  resets to \<open>(0, 0)\<close>.
\<close>

theorem magnetic_hover_offset_witness:
  "last (snd (handleMouseMove ieee (default_options :: unit magnetic_options)
      (Some centered_element) (Finite 100) (Finite 0) 1
      \<lparr>isActive = False, animationFrame = None\<rparr>)) =
     RequestAnimationFrame 1
       (GsapTo centered_element (Finite 30) (Finite 0) (round64 (4 / 10)) ''power2.out'') \<and>
   last (snd (handleMouseMove ieee (default_options :: unit magnetic_options)
      (Some centered_element) (Finite 101) (Finite 0) 1
      \<lparr>isActive = False, animationFrame = None\<rparr>)) =
     GsapTo centered_element (Finite 0) (Finite 0) (round64 (4 / 10)) ''power2.out''"
proof -
  have inside:
    "\<not> num_gt ieee
        (num_sqrt ieee
          (num_add ieee
            (num_square ieee
              (num_sub ieee (Finite 100)
                (num_add ieee (rect_left centered_element)
                  (num_div ieee (rect_width centered_element) (Finite 2)))))
            (num_square ieee
              (num_sub ieee (Finite 0)
                (num_add ieee (rect_top centered_element)
                  (num_div ieee (rect_height centered_element) (Finite 2)))))))
        (radius (default_options :: unit magnetic_options))"
    by (simp add: ieee_def default_options_def centered_element_def) (simp add: binary64_eval)
  have outside:
    "num_gt ieee
        (num_sqrt ieee
          (num_add ieee
            (num_square ieee
              (num_sub ieee (Finite 101)
                (num_add ieee (rect_left centered_element)
                  (num_div ieee (rect_width centered_element) (Finite 2)))))
            (num_square ieee
              (num_sub ieee (Finite 0)
                (num_add ieee (rect_top centered_element)
                  (num_div ieee (rect_height centered_element) (Finite 2)))))))
        (radius (default_options :: unit magnetic_options))"
    by (simp add: ieee_def default_options_def centered_element_def) (simp add: binary64_eval)
  have dx: "num_mul ieee
        (num_sub ieee (Finite 100)
          (num_add ieee (rect_left centered_element)
            (num_div ieee (rect_width centered_element) (Finite 2))))
        (strength (default_options :: unit magnetic_options)) = Finite 30"
    by (simp add: ieee_def default_options_def centered_element_def three_tenths)
       (simp add: binary64_eval)
  have dy: "num_mul ieee
        (num_sub ieee (Finite 0)
          (num_add ieee (rect_top centered_element)
            (num_div ieee (rect_height centered_element) (Finite 2))))
        (strength (default_options :: unit magnetic_options)) = Finite 0"
    by (simp add: ieee_def default_options_def centered_element_def three_tenths)
       (simp add: binary64_eval)
  have opts: "speed (default_options :: unit magnetic_options) = round64 (4 / 10)"
    "ease (default_options :: unit magnetic_options) = ''power2.out''"
    by (simp_all add: default_options_def)
  show ?thesis
    using magnetic_hover_offset [of ieee centered_element "Finite 100" "Finite 0"
        "default_options :: unit magnetic_options" 1
        "\<lparr>isActive = False, animationFrame = None\<rparr>"]
      magnetic_hover_offset [of ieee centered_element "Finite 101" "Finite 0"
        "default_options :: unit magnetic_options" 1
        "\<lparr>isActive = False, animationFrame = None\<rparr>"]
      inside outside
    unfolding Let_def
    by (simp add: dx dy opts)
qed

text \<open>
  Claim C7 as worded fails: the pointer \<open>(70.71067811865476, 70.71067811865476)\<close> lies
  farther than 100 from the centre \<open>(0, 0)\<close>, yet in IEEE arithmetic the computed distance is
  exactly 100, not greater than the radius, and the handler schedules the offset instead of
  the reset.
\<close>

theorem diagonal_pointer_stays_active:
  "round64 (7071067811865476 / 10 ^ 14) = Finite (621977702395095 / 8796093022208) \<and>
   (100 :: rat) * 100 <
     621977702395095 / 8796093022208 * (621977702395095 / 8796093022208) +
     621977702395095 / 8796093022208 * (621977702395095 / 8796093022208) \<and>
   handleMouseMove ieee (default_options :: unit magnetic_options) (Some centered_element)
     (Finite (621977702395095 / 8796093022208)) (Finite (621977702395095 / 8796093022208)) 1
     \<lparr>isActive = False, animationFrame = None\<rparr> =
   (\<lparr>isActive = True, animationFrame = Some 1\<rparr>,
    [RequestAnimationFrame 1
       (GsapTo centered_element (Finite (373186621437057 / 17592186044416))
          (Finite (373186621437057 / 17592186044416)) (round64 (4 / 10)) ''power2.out'')])"
proof -
  have 1: "round64 (7071067811865476 / 10 ^ 14) = Finite (621977702395095 / 8796093022208)"
    by (simp add: binary64_eval)
  have 2: "(100 :: rat) * 100 <
     621977702395095 / 8796093022208 * (621977702395095 / 8796093022208) +
     621977702395095 / 8796093022208 * (621977702395095 / 8796093022208)"
    by simp
  have 3: "handleMouseMove ieee (default_options :: unit magnetic_options)
     (Some centered_element)
     (Finite (621977702395095 / 8796093022208)) (Finite (621977702395095 / 8796093022208)) 1
     \<lparr>isActive = False, animationFrame = None\<rparr> =
   (\<lparr>isActive = True, animationFrame = Some 1\<rparr>,
    [RequestAnimationFrame 1
       (GsapTo centered_element (Finite (373186621437057 / 17592186044416))
          (Finite (373186621437057 / 17592186044416)) (round64 (4 / 10)) ''power2.out'')])"
    by (simp add: magnetic_eval three_tenths) (simp add: binary64_eval)
  from 1 2 3 show ?thesis by blast
qed





section \<open>Properties of the registry search\<close>

lemma includes_str_sublist: "includes_str s q = sublist q s"
  by (induction s) (simp_all add: sublist_Cons_right)

lemma includes_lowered:
  "includes_str (toLowerCase lc txt) (toLowerCase lc q) = contains_lowered lc txt q"
  by (simp add: includes_str_sublist sublist_def contains_lowered_def)

lemma lower_from_map:
  "\<forall>c \<in> set s. \<forall>b a. lc b c a = [f c] \<Longrightarrow> lower_from lc before s = map f s"
  by (induction s arbitrary: before) simp_all

lemma toLowerCase_map:
  "\<forall>c \<in> set s. \<forall>b a. lc b c a = [f c] \<Longrightarrow> toLowerCase lc s = map f s"
  by (simp add: toLowerCase_def lower_from_map)

lemma map_eq_sandwich:
  "(\<exists>ps ss. map f t = ps @ map f q @ ss) =
   (\<exists>before mid after. t = before @ mid @ after \<and> map f mid = map f q)"
proof
  assume "\<exists>ps ss. map f t = ps @ map f q @ ss"
  then obtain ps ss where "map f t = ps @ map f q @ ss" by blast
  then have "\<exists>before rest. t = before @ rest \<and> ps = map f before \<and> map f q @ ss = map f rest"
    by (simp only: map_eq_append_conv)
  then obtain before rest where t: "t = before @ rest" and r: "map f rest = map f q @ ss"
    by auto
  from r have "\<exists>mid after. rest = mid @ after \<and> map f q = map f mid \<and> ss = map f after"
    by (simp only: map_eq_append_conv)
  then obtain mid after where "rest = mid @ after" and "map f mid = map f q"
    by auto
  with t show "\<exists>before mid after. t = before @ mid @ after \<and> map f mid = map f q"
    by blast
next
  assume "\<exists>before mid after. t = before @ mid @ after \<and> map f mid = map f q"
  then obtain before mid after where "t = before @ mid @ after" and "map f mid = map f q"
    by blast
  then have "map f t = map f before @ map f q @ map f after" by simp
  then show "\<exists>ps ss. map f t = ps @ map f q @ ss" by blast
qed

lemma list_all2_map_eq: "list_all2 (\<lambda>a b. f a = f b) xs ys = (map f xs = map f ys)"
proof (induction xs arbitrary: ys)
  case Nil
  then show ?case by auto
next
  case (Cons x xs)
  then show ?case by (cases ys) auto
qed

lemma contains_lowered_charwise:
  assumes "\<forall>c \<in> set txt \<union> set q. \<forall>b a. lc b c a = [f c]"
  shows "contains_lowered lc txt q = contains_ignoring_case f txt q"
proof -
  have "toLowerCase lc txt = map f txt" "toLowerCase lc q = map f q"
    using assms by (simp_all add: toLowerCase_map)
  then show ?thesis
    unfolding contains_lowered_def contains_ignoring_case_def list_all2_map_eq
    by (simp only: map_eq_sandwich)
qed

lemma search_shipped: "search lc COMPONENT_REGISTRY query = []"
  by (simp add: search_def COMPONENT_REGISTRY_def)

text \<open>
  Claim C9, as the code has it: for every catalogue and query, \<open>search\<close> returns exactly the
  entries whose lower-cased name, description or some tag contains the lower-cased query, in
  catalogue order, and returns the empty list exactly when there is no such entry. Where
  lower-casing maps every character of the query and of the catalogue's texts by itself to one
  character, as it does on ASCII text, these are exactly the entries whose name, description
  or some tag contains the query ignoring case.
\<close>

theorem search_matches:
  "search lc registry query =
     filter (\<lambda>c. \<exists>txt \<in> set (texts c). contains_lowered lc txt query) registry \<and>
   (search lc registry query = []) =
     (\<forall>c \<in> set registry. \<forall>txt \<in> set (texts c). \<not> contains_lowered lc txt query) \<and>
   ((\<forall>c \<in> set query \<union> (\<Union>e \<in> set registry. \<Union>txt \<in> set (texts e). set txt).
       \<forall>b a. lc b c a = [fold_case c]) \<longrightarrow>
    search lc registry query =
      filter (\<lambda>c. \<exists>txt \<in> set (texts c). contains_ignoring_case fold_case txt query) registry)"
proof -
  have 1: "search lc registry query =
     filter (\<lambda>c. \<exists>txt \<in> set (texts c). contains_lowered lc txt query) registry"
    by (simp add: search_def includes_lowered list_ex_iff texts_def)
  have 2: "filter (\<lambda>c. \<exists>txt \<in> set (texts c). contains_lowered lc txt query) registry =
      filter (\<lambda>c. \<exists>txt \<in> set (texts c). contains_ignoring_case fold_case txt query) registry"
    if h: "\<forall>c \<in> set query \<union> (\<Union>e \<in> set registry. \<Union>txt \<in> set (texts e). set txt).
             \<forall>b a. lc b c a = [fold_case c]"
  proof (rule filter_cong [OF refl])
    fix e
    assume e: "e \<in> set registry"
    have "contains_lowered lc t query = contains_ignoring_case fold_case t query"
      if "t \<in> set (texts e)" for t
      using h e that by (intro contains_lowered_charwise) blast
    then show "(\<exists>txt \<in> set (texts e). contains_lowered lc txt query) =
               (\<exists>txt \<in> set (texts e). contains_ignoring_case fold_case txt query)"
      by blast
  qed
  from 1 2 show ?thesis by (simp add: filter_empty_conv)
qed

text \<open>
  Claim C9 on a catalogue holding the example entry, with the ASCII mapping: the query
  \<open>BUTTON\<close> finds it, through its name and its description; the query \<open>MOUSE\<close> finds it
  through a tag; the query \<open>carousel\<close> finds nothing.
\<close>

theorem search_matches_witness:
  "search ascii_lower [magnetic_button] ''BUTTON'' = [magnetic_button] \<and>
   search ascii_lower [magnetic_button] ''MOUSE'' = [magnetic_button] \<and>
   search ascii_lower [magnetic_button] ''carousel'' = [] \<and>
   contains_ignoring_case lower_char (tags magnetic_button ! 1) ''MOUSE'' \<and>
   \<not> contains_ignoring_case lower_char (name magnetic_button) ''carousel''"
proof -
  have c: "\<forall>c \<in> set q \<union> (\<Union>e \<in> set [magnetic_button]. \<Union>txt \<in> set (texts e). set txt).
            \<forall>b a. ascii_lower b c a = [lower_char c]" for q
    by (simp add: ascii_lower_def)
  note m = search_matches [of ascii_lower "[magnetic_button]" _ lower_char]
  have 1: "search ascii_lower [magnetic_button] ''BUTTON'' = [magnetic_button]"
    by (simp add: search_def magnetic_button_def toLowerCase_def ascii_lower_def lower_char_def)
  have 2: "search ascii_lower [magnetic_button] ''MOUSE'' = [magnetic_button]"
    by (simp add: search_def magnetic_button_def toLowerCase_def ascii_lower_def lower_char_def)
  have 3: "search ascii_lower [magnetic_button] ''carousel'' = []"
    by (simp add: search_def magnetic_button_def toLowerCase_def ascii_lower_def lower_char_def)
  have 4: "contains_ignoring_case lower_char ''mouse'' ''MOUSE''"
    using contains_lowered_charwise [of "''mouse''" "''MOUSE''" ascii_lower lower_char]
    by (simp add: includes_lowered [symmetric] ascii_lower_def toLowerCase_def lower_char_def)
  from m [of "''carousel''"] c [of "''carousel''"]
  have "search ascii_lower [magnetic_button] ''carousel'' =
          filter (\<lambda>c. \<exists>t \<in> set (texts c). contains_ignoring_case lower_char t ''carousel'')
            [magnetic_button]"
    by blast
  with 3 have "\<not> (\<exists>t \<in> set (texts magnetic_button).
                    contains_ignoring_case lower_char t ''carousel'')"
    by (simp split: if_splits)
  then have 5: "\<not> contains_ignoring_case lower_char (name magnetic_button) ''carousel''"
    by (simp add: texts_def)
  from 1 2 3 4 5 show ?thesis by (simp add: magnetic_button_def)
qed

text \<open>
  Claim C9 as worded fails: the name of five Greek capitals, omicron, delta, omicron, sigma,
  alpha, begins with the query of four, omicron, delta, omicron, sigma, letter for letter. But
  the query's sigma ends its string and lower-cases to final sigma, the name's does not, so the
  lower-cased name does not contain the lower-cased query and \<open>search\<close> does not return the
  entry.
\<close>

theorem final_sigma_hides_match:
  "search greek_lower [odos] [927, 916, 927, 931] = [] \<and>
   name odos = [927, 916, 927, 931] @ [913] \<and>
   toLowerCase greek_lower (name odos) = [959, 948, 959, 963, 945] \<and>
   toLowerCase greek_lower [927, 916, 927, 931] = [959, 948, 959, 962]"
  by (simp add: search_def odos_def toLowerCase_def greek_lower_def greek_letter_def)

text \<open>
  Claim C10: the empty query returns the whole catalogue, since the empty string occurs in
  every name.
\<close>

theorem search_empty_query: "search lc registry [] = registry"
  by (simp add: search_def toLowerCase_def includes_str_sublist)

end
